theory Spec2Isabelle
  imports Main
begin

section \<open>Rendering of roll fields (src/utils/render.js)\<close>

text \<open>
  The module turns dice rolls into the data of a chat card. Two functions carry the
  logic: \<open>renderMultiRoll\<close> splits a d20 roll into one entry per logical outcome, and
  \<open>renderDamageRoll\<close> places the title, the context and the damage type of a damage
  roll into three label slots. Both hand a plain data object to the template renderer
  of the host; the model returns that data object.

  JavaScript values are modelled by what the code does with them: a property that may
  be \<open>undefined\<close> is an \<open>option\<close>, a thrown \<open>TypeError\<close> is the left side of a
  sum, and an object the code writes to is returned in its new state. Where two objects
  of the source share a property name, the record fields carry a short prefix.
\<close>

subsection \<open>JavaScript operators\<close>

datatype js_error =
    TypeError_no_d20       \<comment> \<open>\<open>roll.dice.find(...)\<close> gave \<open>undefined\<close>; \<open>.results\<close> was read on it\<close>
  | TypeError_past_end     \<comment> \<open>\<open>results[i]\<close> past the end gave \<open>undefined\<close>; \<open>.rerolled\<close> was read on it\<close>
  | TypeError_no_slot      \<comment> \<open>\<open>labels[p]\<close> gave \<open>undefined\<close>; \<open>.push\<close> or \<open>[0]\<close> was used on it\<close>
  | TypeError_no_critRoll  \<comment> \<open>\<open>critRoll\<close> was \<open>undefined\<close>; \<open>.formula\<close> was read on it\<close>

text \<open>Truthiness of a boolean property that may be missing, and of a string that may be missing.\<close>

definition truthy :: "bool option \<Rightarrow> bool" where
  "truthy b = (case b of None \<Rightarrow> False | Some v \<Rightarrow> v)"

definition truthyStr :: "string option \<Rightarrow> bool" where
  "truthyStr s = (case s of None \<Rightarrow> False | Some v \<Rightarrow> v \<noteq> [])"

text \<open>Every array is truthy, the empty one too.\<close>

definition truthyArray :: "'a list \<Rightarrow> bool" where
  "truthyArray xs = True"

text \<open>\<open>a ?? b\<close>: the right side only when the left is \<open>null\<close> or \<open>undefined\<close>.\<close>

definition nullish :: "'a option \<Rightarrow> 'a \<Rightarrow> 'a" where
  "nullish a b = (case a of None \<Rightarrow> b | Some v \<Rightarrow> v)"

subsection \<open>Rolls of the host\<close>

record DieResult =
  result :: int
  active :: "bool option"
  discarded :: "bool option"
  rerolled :: "bool option"

record Die =
  number :: int
  faces :: int
  results :: "DieResult list"

text \<open>
  A term of a roll is a die group or any other term; the other terms are carried with
  the signed amount they add to the total of their roll.
\<close>

datatype RollTerm = DieT Die | OtherT int

record RollOptions =
  halflingLucky :: bool

record Roll =
  formula :: string
  terms :: "RollTerm list"
  total' :: int
  isCritical :: "bool option"
  options :: RollOptions

text \<open>
  \<open>roll.dice\<close> is a getter of the host: the die groups among the terms, in their
  order. The die group it gives is the object that stands among the terms.
\<close>

fun dice :: "RollTerm list \<Rightarrow> Die list" where
  "dice [] = []"
| "dice (DieT d # ts) = d # dice ts"
| "dice (OtherT n # ts) = dice ts"

text \<open>
  Modelled from the spec: the dice API of the host (\<open>Die\<close>, \<open>Roll.fromTerms\<close>,
  \<open>total\<close>) is not part of the source file. A die group totals the face values of
  its results whose \<open>active\<close> flag is true (4.2, step 2d); a roll totals its terms,
  and a roll of no terms totals 0 (4.2, step 1). The total is taken when the roll is
  built.
\<close>

definition isActive :: "DieResult \<Rightarrow> bool" where
  "isActive r = truthy (active r)"

definition dieTotal :: "Die \<Rightarrow> int" where
  "dieTotal d = sum_list (map result (filter isActive (results d)))"

fun termTotal :: "RollTerm \<Rightarrow> int" where
  "termTotal (DieT d) = dieTotal d"
| "termTotal (OtherT n) = n"

definition evaluateTotal :: "RollTerm list \<Rightarrow> int" where
  "evaluateTotal ts = sum_list (map termTotal ts)"

text \<open>
  What the module reads from its collaborators: the host's formula and tooltip
  renderers, the critical classifiers of \<open>RollUtility\<close>, the localisation, the
  vocabularies of \<open>CONFIG.DND5E\<close> and the constants of the module.
\<close>

record Host =
  getFormula :: "RollTerm list \<Rightarrow> string"
  getTooltip :: "Roll \<Rightarrow> string"
  getCritTypeForDie :: "Die \<Rightarrow> string option"
  getCritTypeForRoll :: "Roll \<Rightarrow> string option"
  localize :: "string \<Rightarrow> string"
  healingTypes :: "string \<Rightarrow> string option"
  damageTypes :: "string \<Rightarrow> string option"
  weaponProperties_ver :: string
  MODULE_SHORT :: string
  ROLL_TYPE_DAMAGE :: string
  ROLL_TYPE_OTHER :: string

definition fromTerms :: "Host \<Rightarrow> RollTerm list \<Rightarrow> Roll" where
  "fromTerms h ts =
     \<lparr>formula = getFormula h ts, terms = ts, total' = evaluateTotal ts,
      isCritical = None, options = \<lparr>halflingLucky = False\<rparr>\<rparr>"

subsection \<open>Settings\<close>

text \<open>
  A placement setting holds a slot number. The registration of the settings is not part
  of the source file, and the code compares the value both with the number \<open>0\<close> and
  with the string \<open>"0"\<close>, so both representations are modelled: \<open>AsNumber n\<close> is the
  number \<open>n\<close>, \<open>AsString n\<close> is the string of the decimal digits of \<open>n\<close>.
\<close>

datatype Placement = AsNumber nat | AsString nat

text \<open>The property key of a placement: \<open>labels[1]\<close> and \<open>labels["1"]\<close> are the same slot.\<close>

fun slotOf :: "Placement \<Rightarrow> nat" where
  "slotOf (AsNumber n) = n"
| "slotOf (AsString n) = n"

text \<open>\<open>a == b\<close> converts a string to a number before comparing; \<open>a === b\<close> does not.\<close>

definition looseEq :: "Placement \<Rightarrow> Placement \<Rightarrow> bool" where
  "looseEq a b = (slotOf a = slotOf b)"

definition strictEq :: "Placement \<Rightarrow> Placement \<Rightarrow> bool" where
  "strictEq a b = (a = b)"

record Settings =
  D20_ICONS_ENABLED :: bool
  PLACEMENT_DAMAGE_TITLE :: Placement
  PLACEMENT_DAMAGE_TYPE :: Placement
  PLACEMENT_DAMAGE_CONTEXT :: Placement
  CONTEXT_REPLACE_TITLE :: bool
  CONTEXT_REPLACE_DAMAGE :: bool

subsection \<open>renderMultiRoll\<close>

text \<open>
  The data of a check or an attack, with the roll the caller supplies. Of the roll the
  code reads the formula, the terms, the dice, \<open>isCritical\<close> and the option
  \<open>halflingLucky\<close>.
\<close>

record MultiRollData =
  md_id :: string
  md_roll :: Roll
  md_title :: "string option"

record Entry =
  e_roll :: Roll
  e_total :: int
  ignored :: "bool option"
  isCrit :: "bool option"
  critType :: "string option"
  d20Result :: "int option"

record MultiRollOutput =
  mo_id :: string
  mo_title :: "string option"
  mo_formula :: string
  entries :: "Entry list"
  mo_tooltips :: "string list"
  bonusTooltip :: "string option"

text \<open>\<open>r.active = !r.rerolled ?? true\<close>: the negation binds first and is never nullish.\<close>

definition setActive :: "DieResult \<Rightarrow> DieResult" where
  "setActive r = r\<lparr>active := Some (nullish (Some (\<not> truthy (rerolled r))) True)\<rparr>"

text \<open>
  The results are objects shared between the caller's die group and the entries, and
  \<open>forEach\<close> writes to them in place. The walk carries the results of the die group
  as its state: \<open>consume1\<close> is that state after an entry of one result at index
  \<open>i\<close>, \<open>consume2\<close> after an entry of the results at \<open>i\<close> and \<open>i + 1\<close>.
\<close>

definition consume1 :: "DieResult list \<Rightarrow> nat \<Rightarrow> DieResult list" where
  "consume1 rs i = rs[i := setActive (rs ! i)]"

definition consume2 :: "DieResult list \<Rightarrow> nat \<Rightarrow> DieResult list" where
  "consume2 rs i = (consume1 rs i)[Suc i := setActive (consume1 rs i ! Suc i)]"

text \<open>
  The entry pushed at the end of one iteration: \<open>tmpResults\<close> after the writes, and
  \<open>shown\<close>, the result \<open>d20Rolls.results[i]\<close> at the value \<open>i\<close> has by then.
\<close>

definition mkEntry ::
  "Host \<Rightarrow> Settings \<Rightarrow> Roll \<Rightarrow> Roll option \<Rightarrow> DieResult list \<Rightarrow> DieResult \<Rightarrow> Entry" where
  "mkEntry h st roll bonusRoll tmpResults shown =
     (let baseTerm = \<lparr>number = 1, faces = 20, results = tmpResults\<rparr>;
          baseRoll = fromTerms h [DieT baseTerm]
      in \<lparr>e_roll = baseRoll,
          e_total = total' baseRoll + nullish (map_option total' bonusRoll) 0,
          ignored = (if list_ex (\<lambda>r. truthy (discarded r)) tmpResults then Some True else None),
          isCrit = isCritical roll,
          critType = getCritTypeForDie h baseTerm,
          d20Result = (if D20_ICONS_ENABLED st then Some (result shown) else None)\<rparr>)"

text \<open>
  The loop over \<open>d20Rolls.results\<close>, from index \<open>i\<close>. It gives the entries, or the
  error, and the results as the writes left them.
\<close>

function walk ::
  "Host \<Rightarrow> Settings \<Rightarrow> Roll \<Rightarrow> Roll option \<Rightarrow> nat \<Rightarrow> DieResult list \<Rightarrow> Entry list
     \<Rightarrow> (js_error + Entry list) \<times> DieResult list" where
  "walk h st roll bonusRoll i rs es =
     (if i < length rs then
        (if halflingLucky (options roll) \<and> result (rs ! i) = 1 then
           (if Suc i < length rs then
              walk h st roll bonusRoll (Suc (Suc i)) (consume2 rs i)
                (es @ [mkEntry h st roll bonusRoll
                         [consume2 rs i ! i, consume2 rs i ! Suc i] (consume2 rs i ! Suc i)])
            else (Inl TypeError_past_end, consume1 rs i))
         else
           walk h st roll bonusRoll (Suc i) (consume1 rs i)
             (es @ [mkEntry h st roll bonusRoll [consume1 rs i ! i] (consume1 rs i ! i)]))
      else (Inr es, rs))"
  by pat_completeness auto
termination
  by (relation "measure (\<lambda>(h, st, roll, bonusRoll, i, rs, es). length rs - i)")
     (auto simp: consume1_def consume2_def)

declare walk.simps [simp del]

text \<open>
  \<open>roll.dice.find(d => d.faces === 20)\<close> gives the object that stands among the terms
  of the roll, so the writes of the walk reach the caller's roll: \<open>writeBack\<close> puts
  the results into the first die group of 20 faces.
\<close>

fun writeBack :: "DieResult list \<Rightarrow> RollTerm list \<Rightarrow> RollTerm list" where
  "writeBack rs [] = []"
| "writeBack rs (DieT d # ts) =
     (if faces d = 20 then DieT (d\<lparr>results := rs\<rparr>) # ts else DieT d # writeBack rs ts)"
| "writeBack rs (OtherT n # ts) = OtherT n # writeBack rs ts"

text \<open>
  The function gives the data object handed to the template, or the error, and the
  caller's roll as the call left it. The bonus roll is built from the term objects of
  the caller's roll: its total is taken before the walk, its tooltip after.
\<close>

definition renderMultiRoll ::
  "Host \<Rightarrow> Settings \<Rightarrow> MultiRollData \<Rightarrow> (js_error + MultiRollOutput) \<times> Roll" where
  "renderMultiRoll h st renderData =
     (let roll = md_roll renderData;
          bonusTerms = drop 1 (terms roll);
          bonusRoll = (if truthyArray bonusTerms then Some (fromTerms h bonusTerms) else None)
      in case find (\<lambda>d. faces d = 20) (dice (terms roll)) of
           None \<Rightarrow> (Inl TypeError_no_d20, roll)
         | Some d20Rolls \<Rightarrow>
             (case walk h st roll bonusRoll 0 (results d20Rolls) [] of
                (Inl err, rs) \<Rightarrow> (Inl err, roll\<lparr>terms := writeBack rs (terms roll)\<rparr>)
              | (Inr es, rs) \<Rightarrow>
                  (let roll' = roll\<lparr>terms := writeBack rs (terms roll)\<rparr>;
                       tooltips = map (\<lambda>e. getTooltip h (e_roll e)) es;
                       bonusTooltip =
                         map_option (\<lambda>b. getTooltip h (b\<lparr>terms := drop 1 (terms roll')\<rparr>)) bonusRoll
                   in (Inr \<lparr>mo_id = md_id renderData, mo_title = md_title renderData,
                            mo_formula = formula roll, entries = es,
                            mo_tooltips = tooltips, bonusTooltip = bonusTooltip\<rparr>,
                       roll'))))"

text \<open>The results an entry was built from: those of the die group of its roll.\<close>

definition contributing :: "Entry \<Rightarrow> DieResult list" where
  "contributing e = concat (map results (dice (terms (e_roll e))))"

text \<open>
  The walk as the design notes of the spec word it: a cursor over the results that
  takes one result for an entry, or two when the lucky rule is on and the first shows
  1, and that has no result to take when such a first result is the last one.
\<close>

fun groupResults :: "bool \<Rightarrow> DieResult list \<Rightarrow> DieResult list list option" where
  "groupResults lucky [] = Some []"
| "groupResults lucky [r] = (if lucky \<and> result r = 1 then None else Some [[r]])"
| "groupResults lucky (r # c # rs) =
     (if lucky \<and> result r = 1 then map_option ((#) [r, c]) (groupResults lucky rs)
      else map_option ((#) [r]) (groupResults lucky (c # rs)))"

text \<open>The entry of one group of the cursor walk.\<close>

definition entryOf :: "Host \<Rightarrow> Settings \<Rightarrow> Roll \<Rightarrow> Roll option \<Rightarrow> DieResult list \<Rightarrow> Entry" where
  "entryOf h st roll b g = mkEntry h st roll b (map setActive g) (setActive (last g))"

text \<open>A roll with the \<open>active\<close> flag of every die result cleared, to compare rolls apart from it.\<close>

definition clearActive :: "DieResult \<Rightarrow> DieResult" where
  "clearActive r = r\<lparr>active := None\<rparr>"

fun clearTerm :: "RollTerm \<Rightarrow> RollTerm" where
  "clearTerm (DieT d) = DieT (d\<lparr>results := map clearActive (results d)\<rparr>)"
| "clearTerm (OtherT n) = OtherT n"

definition withoutActive :: "Roll \<Rightarrow> Roll" where
  "withoutActive r = r\<lparr>terms := map clearTerm (terms r)\<rparr>"

subsection \<open>renderDamageRoll\<close>

record DamageData =
  dd_id :: string
  damageType :: string
  baseRoll :: "Roll option"
  critRoll :: "Roll option"
  context' :: "string option"
  versatile :: bool

record RollSummary =
  rs_roll :: Roll
  rs_total :: int
  rs_critType :: "string option"

record DamageOutput =
  do_id :: string
  damageRollType :: string
  do_tooltips :: "string list"
  base :: "RollSummary option"
  crit :: "RollSummary option"
  crittext :: string
  damagetop :: string
  damagemid :: string
  damagebottom :: string
  do_formula :: string
  do_damageType :: string

text \<open>\<open>roll?.terms.length === 0\<close>: false for a roll that is missing.\<close>

definition zeroTerms :: "Roll option \<Rightarrow> bool" where
  "zeroTerms r = (case r of None \<Rightarrow> False | Some x \<Rightarrow> length (terms x) = 0)"

text \<open>The title prefix: a healing label, the damage label, the label of the other rolls, or nothing.\<close>

definition damagePrefix :: "Host \<Rightarrow> string \<Rightarrow> bool \<Rightarrow> string" where
  "damagePrefix h dt ver =
     (if truthyStr (healingTypes h dt) then nullish (healingTypes h dt) []
      else if truthyStr (damageTypes h dt) then
        localize h (MODULE_SHORT h @ ''.chat.'' @ ROLL_TYPE_DAMAGE h) @
        (if ver then '' ['' @ weaponProperties_ver h @ '']'' else [])
      else if dt = ROLL_TYPE_OTHER h then
        localize h (MODULE_SHORT h @ ''.chat.'' @ ROLL_TYPE_OTHER h)
      else [])"

text \<open>The object \<open>labels\<close>: the fragments of the slots 1, 2 and 3; no other key exists.\<close>

type_synonym Labels = "nat \<Rightarrow> string list option"

definition emptyLabels :: Labels where
  "emptyLabels = (\<lambda>k. if k = 1 \<or> k = 2 \<or> k = 3 then Some [] else None)"

text \<open>\<open>labels[p].push(x)\<close> throws when the object has no key \<open>p\<close>.\<close>

definition push :: "Labels \<Rightarrow> Placement \<Rightarrow> string \<Rightarrow> js_error + Labels" where
  "push labels p x =
     (case labels (slotOf p) of
        None \<Rightarrow> Inl TypeError_no_slot
      | Some xs \<Rightarrow> Inr (labels(slotOf p \<mapsto> xs @ [x])))"

text \<open>
  The merge of the context into the first fragment of its slot:
  \<open>labels[p][0] = (titleTmp ? titleTmp + " " : "") + `(${context})`\<close>.
\<close>

definition mergedLabel :: "string option \<Rightarrow> string \<Rightarrow> string" where
  "mergedLabel titleTmp ctx =
     (if truthyStr titleTmp then nullish titleTmp [] @ '' '' else []) @ ''('' @ ctx @ '')''"

definition mergeContext :: "Labels \<Rightarrow> Placement \<Rightarrow> string \<Rightarrow> js_error + Labels" where
  "mergeContext labels p ctx =
     (case labels (slotOf p) of
        None \<Rightarrow> Inl TypeError_no_slot
      | Some xs \<Rightarrow>
          Inr (labels(slotOf p \<mapsto>
                 (case xs of
                    [] \<Rightarrow> [mergedLabel None ctx]
                  | x # rest \<Rightarrow> mergedLabel (Some x) ctx # rest))))"

text \<open>The title step: the labels after it, and \<open>pushedTitle\<close>.\<close>

definition placeTitle :: "Host \<Rightarrow> Settings \<Rightarrow> DamageData \<Rightarrow> js_error + Labels \<times> bool" where
  "placeTitle h st rd =
     (let titlePlacement = PLACEMENT_DAMAGE_TITLE st;
          contextPlacement = PLACEMENT_DAMAGE_CONTEXT st;
          replaceTitle = CONTEXT_REPLACE_TITLE st
      in if titlePlacement \<noteq> AsNumber 0 \<and>
            \<not> (replaceTitle \<and> truthyStr (context' rd) \<and> looseEq titlePlacement contextPlacement)
         then (case push emptyLabels titlePlacement
                      (damagePrefix h (damageType rd) (versatile rd)) of
                 Inl err \<Rightarrow> Inl err
               | Inr labels \<Rightarrow> Inr (labels, True))
         else Inr (emptyLabels, False))"

text \<open>The context step.\<close>

definition placeContext :: "Settings \<Rightarrow> DamageData \<Rightarrow> Labels \<times> bool \<Rightarrow> js_error + Labels" where
  "placeContext st rd lp =
     (let titlePlacement = PLACEMENT_DAMAGE_TITLE st;
          contextPlacement = PLACEMENT_DAMAGE_CONTEXT st;
          labels = fst lp;
          pushedTitle = snd lp
      in if truthyStr (context' rd) then
           (if strictEq contextPlacement titlePlacement \<and> pushedTitle then
              mergeContext labels contextPlacement (nullish (context' rd) [])
            else if contextPlacement \<noteq> AsString 0 then
              push labels contextPlacement (nullish (context' rd) [])
            else Inr labels)
         else Inr labels)"

text \<open>The damage type step.\<close>

definition placeType :: "Host \<Rightarrow> Settings \<Rightarrow> DamageData \<Rightarrow> Labels \<Rightarrow> js_error + Labels" where
  "placeType h st rd labels =
     (let typePlacement = PLACEMENT_DAMAGE_TYPE st;
          contextPlacement = PLACEMENT_DAMAGE_CONTEXT st;
          replaceDamage = CONTEXT_REPLACE_DAMAGE st;
          damageString = nullish (damageTypes h (damageType rd)) []
      in if typePlacement \<noteq> AsString 0 \<and> length damageString > 0 \<and>
            \<not> (replaceDamage \<and> truthyStr (context' rd) \<and> looseEq typePlacement contextPlacement)
         then push labels typePlacement damageString
         else Inr labels)"

text \<open>The three steps in the order of the source; the first error ends them.\<close>

definition damageLabels :: "Host \<Rightarrow> Settings \<Rightarrow> DamageData \<Rightarrow> js_error + Labels" where
  "damageLabels h st rd =
     (case placeTitle h st rd of
        Inl err \<Rightarrow> Inl err
      | Inr lp \<Rightarrow>
          (case placeContext st rd lp of
             Inl err \<Rightarrow> Inl err
           | Inr labels \<Rightarrow> placeType h st rd labels))"

text \<open>\<open>xs.join(sep)\<close>.\<close>

fun joinSep :: "string \<Rightarrow> string list \<Rightarrow> string" where
  "joinSep sep [] = []"
| "joinSep sep [x] = x"
| "joinSep sep (x # y # ys) = x @ sep @ joinSep sep (y # ys)"

text \<open>The string of a slot; the keys 1, 2 and 3 are never removed from \<open>labels\<close>.\<close>

definition joined :: "Labels \<Rightarrow> nat \<Rightarrow> string" where
  "joined labels p = joinSep '' - '' (nullish (labels p) [])"

text \<open>The tooltip of a roll that may be missing, for \<open>[...].filter(t => t)\<close>.\<close>

definition tooltipOf :: "Host \<Rightarrow> Roll option \<Rightarrow> string list" where
  "tooltipOf h r = (case r of None \<Rightarrow> [] | Some x \<Rightarrow> [getTooltip h x])"

definition summary :: "Host \<Rightarrow> Roll option \<Rightarrow> RollSummary option" where
  "summary h r =
     map_option (\<lambda>x. \<lparr>rs_roll = x, rs_total = total' x, rs_critType = getCritTypeForRoll h x\<rparr>) r"

text \<open>\<open>baseRoll?.formula ?? critRoll.formula\<close>.\<close>

definition formulaOf :: "Roll option \<Rightarrow> Roll option \<Rightarrow> js_error + string" where
  "formulaOf b c =
     (case b of
        Some x \<Rightarrow> Inr (formula x)
      | None \<Rightarrow> (case c of Some y \<Rightarrow> Inr (formula y) | None \<Rightarrow> Inl TypeError_no_critRoll))"

text \<open>
  The function gives \<open>Inr None\<close> where the source returns nothing, the data object
  handed to the template otherwise, or the error.
\<close>

definition renderDamageRoll ::
  "Host \<Rightarrow> Settings \<Rightarrow> DamageData \<Rightarrow> js_error + DamageOutput option" where
  "renderDamageRoll h st renderData =
     (if zeroTerms (baseRoll renderData) \<and> zeroTerms (critRoll renderData) then Inr None
      else
        (case damageLabels h st renderData of
           Inl err \<Rightarrow> Inl err
         | Inr labels \<Rightarrow>
             (case formulaOf (baseRoll renderData) (critRoll renderData) of
                Inl err \<Rightarrow> Inl err
              | Inr f \<Rightarrow>
                  Inr (Some
                    \<lparr>do_id = dd_id renderData,
                     damageRollType = ROLL_TYPE_DAMAGE h,
                     do_tooltips =
                       filter (\<lambda>t. t \<noteq> [])
                         (tooltipOf h (baseRoll renderData) @ tooltipOf h (critRoll renderData)),
                     base = summary h (baseRoll renderData),
                     crit = summary h (critRoll renderData),
                     crittext = localize h (MODULE_SHORT h @ ''.chat.crit''),
                     damagetop = joined labels 1,
                     damagemid = joined labels 2,
                     damagebottom = joined labels 3,
                     do_formula = f,
                     do_damageType = damageType renderData\<rparr>))))"

subsection \<open>Sample inputs\<close>

text \<open>
  A host with a small vocabulary, the settings for given placements, a freshly rolled
  result, a check on one die group of 20 faces, and a damage roll.
\<close>

definition sampleHost :: Host where
  "sampleHost =
     \<lparr>getFormula = (\<lambda>ts. ''terms''),
      getTooltip = (\<lambda>r. ''tooltip of '' @ formula r),
      getCritTypeForDie = (\<lambda>d. None),
      getCritTypeForRoll = (\<lambda>r. None),
      localize = (\<lambda>k. if k = ''rsr5e.chat.damage'' then ''Damage''
                       else if k = ''rsr5e.chat.other'' then ''Other'' else k),
      healingTypes = (\<lambda>k. if k = ''healing'' then Some ''Healing'' else None),
      damageTypes = (\<lambda>k. if k = ''fire'' then Some ''Fire'' else None),
      weaponProperties_ver = ''Versatile'',
      MODULE_SHORT = ''rsr5e'',
      ROLL_TYPE_DAMAGE = ''damage'',
      ROLL_TYPE_OTHER = ''other''\<rparr>"

definition sampleSettings :: "Placement \<Rightarrow> Placement \<Rightarrow> Placement \<Rightarrow> Settings" where
  "sampleSettings titleP typeP contextP =
     \<lparr>D20_ICONS_ENABLED = True,
      PLACEMENT_DAMAGE_TITLE = titleP,
      PLACEMENT_DAMAGE_TYPE = typeP,
      PLACEMENT_DAMAGE_CONTEXT = contextP,
      CONTEXT_REPLACE_TITLE = False,
      CONTEXT_REPLACE_DAMAGE = False\<rparr>"

definition rolled :: "int \<Rightarrow> DieResult" where
  "rolled v = \<lparr>result = v, active = Some True, discarded = None, rerolled = None\<rparr>"

definition sampleCheck :: "bool \<Rightarrow> DieResult list \<Rightarrow> RollTerm list \<Rightarrow> MultiRollData" where
  "sampleCheck lucky rs bonus =
     \<lparr>md_id = ''check'',
      md_roll =
        \<lparr>formula = ''1d20'',
         terms = DieT \<lparr>number = 1, faces = 20, results = rs\<rparr> # bonus,
         total' = 0, isCritical = Some False, options = \<lparr>halflingLucky = lucky\<rparr>\<rparr>,
      md_title = None\<rparr>"


definition sampleDamage :: "string \<Rightarrow> string option \<Rightarrow> Roll option \<Rightarrow> Roll option \<Rightarrow> DamageData" where
  "sampleDamage dt ctx b c =
     \<lparr>dd_id = ''damage'', damageType = dt, baseRoll = b, critRoll = c,
      context' = ctx, versatile = False\<rparr>"

definition sampleRoll :: Roll where
  "sampleRoll =
     \<lparr>formula = ''2d6'',
      terms = [DieT \<lparr>number = 2, faces = 6, results = [rolled 3, rolled 4]\<rparr>],
      total' = 7, isCritical = None, options = \<lparr>halflingLucky = False\<rparr>\<rparr>"

section \<open>Properties\<close>

subsection \<open>The walk\<close>

lemma contributing_mkEntry [simp]:
  "contributing (mkEntry h st roll b tmp shown) = tmp"
  by (simp add: contributing_def mkEntry_def fromTerms_def Let_def)

lemma length_consume1 [simp]: "length (consume1 rs i) = length rs"
  by (simp add: consume1_def)

lemma length_consume2 [simp]: "length (consume2 rs i) = length rs"
  by (simp add: consume2_def)

lemma consume1_nth: "i < length rs \<Longrightarrow> consume1 rs i ! i = setActive (rs ! i)"
  by (simp add: consume1_def)

lemma consume2_nth:
  "Suc i < length rs \<Longrightarrow> consume2 rs i ! i = setActive (rs ! i)"
  "Suc i < length rs \<Longrightarrow> consume2 rs i ! Suc i = setActive (rs ! Suc i)"
  by (simp_all add: consume2_def consume1_def)

lemma take_drop_consume1:
  "i < length rs \<Longrightarrow>
     take (Suc i) (consume1 rs i) = take i rs @ [setActive (rs ! i)] \<and>
     drop (Suc i) (consume1 rs i) = drop (Suc i) rs"
  by (simp add: consume1_def take_Suc_conv_app_nth)

lemma take_drop_consume2:
  "Suc i < length rs \<Longrightarrow>
     take (Suc (Suc i)) (consume2 rs i) = take i rs @ [setActive (rs ! i), setActive (rs ! Suc i)] \<and>
     drop (Suc (Suc i)) (consume2 rs i) = drop (Suc (Suc i)) rs"
  by (simp add: consume2_def consume1_def take_Suc_conv_app_nth nth_list_update)

lemma walk_done: "\<not> i < length rs \<Longrightarrow> walk h st roll b i rs es = (Inr es, rs)"
  by (subst walk.simps) simp

lemma walk_one:
  "i < length rs \<Longrightarrow> \<not> (halflingLucky (options roll) \<and> result (rs ! i) = 1) \<Longrightarrow>
     walk h st roll b i rs es =
       walk h st roll b (Suc i) (consume1 rs i)
         (es @ [mkEntry h st roll b [setActive (rs ! i)] (setActive (rs ! i))])"
  by (subst walk.simps) (auto simp: consume1_nth)

lemma walk_two:
  "Suc i < length rs \<Longrightarrow> halflingLucky (options roll) \<Longrightarrow> result (rs ! i) = 1 \<Longrightarrow>
     walk h st roll b i rs es =
       walk h st roll b (Suc (Suc i)) (consume2 rs i)
         (es @ [mkEntry h st roll b [setActive (rs ! i), setActive (rs ! Suc i)]
                  (setActive (rs ! Suc i))])"
  by (subst walk.simps) (simp add: consume2_nth)

lemma walk_fail:
  "Suc i = length rs \<Longrightarrow> halflingLucky (options roll) \<Longrightarrow> result (rs ! i) = 1 \<Longrightarrow>
     walk h st roll b i rs es = (Inl TypeError_past_end, consume1 rs i)"
  by (subst walk.simps) simp

lemma walk_cases [case_names stop single pair dangling]:
  assumes "\<not> i < length rs \<Longrightarrow> P"
    and "i < length rs \<Longrightarrow> \<not> (halflingLucky (options roll) \<and> result (rs ! i) = 1) \<Longrightarrow> P"
    and "Suc i < length rs \<Longrightarrow> halflingLucky (options roll) \<Longrightarrow> result (rs ! i) = 1 \<Longrightarrow> P"
    and "Suc i = length rs \<Longrightarrow> halflingLucky (options roll) \<Longrightarrow> result (rs ! i) = 1 \<Longrightarrow> P"
  shows P
  using assms by (cases "i < length rs"; cases "Suc i < length rs"; force)

lemma walk_state:
  "snd (walk h st roll b i rs es) = take i rs @ map setActive (drop i rs)"
proof (induction h st roll b i rs es rule: walk.induct)
  case (1 h st roll b i rs es)
  show ?case
  proof (cases rule: walk_cases[where i=i and rs=rs and roll=roll])
    case stop
    then show ?thesis by (simp add: walk_done)
  next
    case single
    have "drop i rs = rs ! i # drop (Suc i) rs"
      using single(1) by (simp add: Cons_nth_drop_Suc)
    with "1.IH"(2)[OF single] single take_drop_consume1[OF single(1)] show ?thesis
      by (simp add: walk_one consume1_nth)
  next
    case pair
    then have inb: "i < length rs" by simp
    have "drop i rs = rs ! i # rs ! Suc i # drop (Suc (Suc i)) rs"
      using pair(1) by (simp add: Cons_nth_drop_Suc)
    with "1.IH"(1)[OF inb _ pair(1)] pair take_drop_consume2[OF pair(1)] show ?thesis
      by (simp add: walk_two consume2_nth)
  next
    case dangling
    then have inb: "i < length rs" by simp
    have "drop i rs = [rs ! i]"
      using dangling(1) inb by (metis Cons_nth_drop_Suc drop_all order_refl)
    with dangling inb take_drop_consume1[OF inb] show ?thesis
      by (simp add: walk_fail)
  qed
qed

lemma entryOf_simps:
  "entryOf h st roll b [r] = mkEntry h st roll b [setActive r] (setActive r)"
  "entryOf h st roll b [r, c] = mkEntry h st roll b [setActive r, setActive c] (setActive c)"
  by (simp_all add: entryOf_def)

lemma groupResults_single:
  "\<not> (lucky \<and> result r = 1) \<Longrightarrow>
     groupResults lucky (r # rest) = map_option ((#) [r]) (groupResults lucky rest)"
  by (cases rest) auto

lemma groupResults_pair:
  "lucky \<Longrightarrow> result r = 1 \<Longrightarrow>
     groupResults lucky (r # c # rest) = map_option ((#) [r, c]) (groupResults lucky rest)"
  by simp

lemma walk_groups:
  "fst (walk h st roll b i rs es) =
     (case groupResults (halflingLucky (options roll)) (drop i rs) of
        None \<Rightarrow> Inl TypeError_past_end
      | Some gs \<Rightarrow> Inr (es @ map (entryOf h st roll b) gs))"
proof (induction h st roll b i rs es rule: walk.induct)
  case (1 h st roll b i rs es)
  show ?case
  proof (cases rule: walk_cases[where i=i and rs=rs and roll=roll])
    case stop
    then show ?thesis by (simp add: walk_done)
  next
    case single
    have d: "drop i rs = rs ! i # drop (Suc i) rs"
      using single(1) by (simp add: Cons_nth_drop_Suc)
    have g: "groupResults (halflingLucky (options roll)) (drop i rs) =
        map_option ((#) [rs ! i]) (groupResults (halflingLucky (options roll)) (drop (Suc i) rs))"
      unfolding d using single(2) by (rule groupResults_single)
    have step: "walk h st roll b i rs es =
        walk h st roll b (Suc i) (consume1 rs i) (es @ [entryOf h st roll b [rs ! i]])"
      using single by (simp add: walk_one entryOf_simps)
    have ih: "fst (walk h st roll b (Suc i) (consume1 rs i) (es @ [entryOf h st roll b [rs ! i]])) =
        (case groupResults (halflingLucky (options roll)) (drop (Suc i) rs) of
           None \<Rightarrow> Inl TypeError_past_end
         | Some gs \<Rightarrow> Inr ((es @ [entryOf h st roll b [rs ! i]]) @ map (entryOf h st roll b) gs))"
      using "1.IH"(2)[OF single] take_drop_consume1[OF single(1)] single(1)
      by (simp add: consume1_nth entryOf_simps cong: option.case_cong)
    show ?thesis unfolding step ih g by (simp split: option.splits)
  next
    case pair
    then have inb: "i < length rs" by simp
    have d: "drop i rs = rs ! i # rs ! Suc i # drop (Suc (Suc i)) rs"
      using pair(1) by (simp add: Cons_nth_drop_Suc)
    have g: "groupResults (halflingLucky (options roll)) (drop i rs) =
        map_option ((#) [rs ! i, rs ! Suc i])
          (groupResults (halflingLucky (options roll)) (drop (Suc (Suc i)) rs))"
      unfolding d using pair(2,3) by (rule groupResults_pair)
    have step: "walk h st roll b i rs es =
        walk h st roll b (Suc (Suc i)) (consume2 rs i)
          (es @ [entryOf h st roll b [rs ! i, rs ! Suc i]])"
      using pair by (simp add: walk_two entryOf_simps)
    have ih: "fst (walk h st roll b (Suc (Suc i)) (consume2 rs i)
                     (es @ [entryOf h st roll b [rs ! i, rs ! Suc i]])) =
        (case groupResults (halflingLucky (options roll)) (drop (Suc (Suc i)) rs) of
           None \<Rightarrow> Inl TypeError_past_end
         | Some gs \<Rightarrow>
             Inr ((es @ [entryOf h st roll b [rs ! i, rs ! Suc i]]) @ map (entryOf h st roll b) gs))"
      using "1.IH"(1)[OF inb _ pair(1)] take_drop_consume2[OF pair(1)] pair(1) pair(2,3)
      by (simp add: consume2_nth entryOf_simps cong: option.case_cong)
    show ?thesis unfolding step ih g by (simp split: option.splits)
  next
    case dangling
    then have inb: "i < length rs" by simp
    have "drop i rs = [rs ! i]"
      using dangling(1) inb by (metis Cons_nth_drop_Suc drop_all order_refl)
    with dangling show ?thesis
      by (simp add: walk_fail)
  qed
qed

subsection \<open>The groups of the cursor walk\<close>

lemma groupResults_concat: "groupResults lucky rs = Some gs \<Longrightarrow> concat gs = rs"
  by (induction lucky rs arbitrary: gs rule: groupResults.induct) (auto split: if_splits)

lemma groupResults_shape:
  "groupResults lucky rs = Some gs \<Longrightarrow> g \<in> set gs \<Longrightarrow>
     (\<exists>r. g = [r] \<and> \<not> (lucky \<and> result r = 1)) \<or> (\<exists>r c. g = [r, c] \<and> lucky \<and> result r = 1)"
  by (induction lucky rs arbitrary: gs rule: groupResults.induct) (auto split: if_splits)

lemma groupResults_last_one:
  "result p \<noteq> 1 \<Longrightarrow> result l = 1 \<Longrightarrow> groupResults True (xs @ [p, l]) = None"
  by (induction "True" xs rule: groupResults.induct) auto

subsection \<open>The caller's roll\<close>

lemma find_writeBack:
  "find (\<lambda>d. faces d = 20) (dice (writeBack rs ts)) =
     map_option (\<lambda>d. d\<lparr>results := rs\<rparr>) (find (\<lambda>d. faces d = 20) (dice ts))"
  by (induction rs ts rule: writeBack.induct) auto

lemma clearActive_setActive [simp]: "clearActive (setActive r) = clearActive r"
  by (simp add: clearActive_def setActive_def)

lemma clear_writeBack:
  "find (\<lambda>d. faces d = 20) (dice ts) = Some d \<Longrightarrow>
     map clearTerm (writeBack (map setActive (results d)) ts) = map clearTerm ts"
  by (induction "map setActive (results d)" ts rule: writeBack.induct) (auto split: if_splits)

subsection \<open>renderMultiRoll in terms of the groups\<close>

lemma renderMultiRoll_unfold:
  assumes "find (\<lambda>d. faces d = 20) (dice (terms (md_roll rd))) = Some d"
    and "walk h st (md_roll rd) (Some (fromTerms h (drop 1 (terms (md_roll rd))))) 0 (results d) []
           = (x, rs)"
  shows "renderMultiRoll h st rd =
     (case x of
        Inl err \<Rightarrow> (Inl err, (md_roll rd)\<lparr>terms := writeBack rs (terms (md_roll rd))\<rparr>)
      | Inr es \<Rightarrow>
          (Inr \<lparr>mo_id = md_id rd, mo_title = md_title rd, mo_formula = formula (md_roll rd),
                entries = es, mo_tooltips = map (\<lambda>e. getTooltip h (e_roll e)) es,
                bonusTooltip =
                  Some (getTooltip h
                    ((fromTerms h (drop 1 (terms (md_roll rd))))
                      \<lparr>terms := drop 1 (writeBack rs (terms (md_roll rd)))\<rparr>))\<rparr>,
           (md_roll rd)\<lparr>terms := writeBack rs (terms (md_roll rd))\<rparr>))"
  using assms by (simp add: renderMultiRoll_def Let_def truthyArray_def split: sum.splits)

lemma renderMultiRoll_snd:
  "snd (renderMultiRoll h st rd) =
     (case find (\<lambda>d. faces d = 20) (dice (terms (md_roll rd))) of
        None \<Rightarrow> md_roll rd
      | Some d \<Rightarrow> (md_roll rd)\<lparr>terms := writeBack (map setActive (results d)) (terms (md_roll rd))\<rparr>)"
proof (cases "find (\<lambda>d. faces d = 20) (dice (terms (md_roll rd)))")
  case None
  then show ?thesis by (simp add: renderMultiRoll_def Let_def)
next
  case (Some d)
  let ?b = "Some (fromTerms h (drop 1 (terms (md_roll rd))))"
  obtain x rs where w: "walk h st (md_roll rd) ?b 0 (results d) [] = (x, rs)"
    by (cases "walk h st (md_roll rd) ?b 0 (results d) []") blast
  have "snd (walk h st (md_roll rd) ?b 0 (results d) []) = map setActive (results d)"
    by (simp only: walk_state take0 drop0 append_Nil)
  then have rs: "rs = map setActive (results d)"
    by (simp only: w snd_conv)
  show ?thesis
    unfolding renderMultiRoll_unfold[OF Some w] rs Some
    by (cases x) simp_all
qed

lemma renderMultiRoll_fst:
  assumes "find (\<lambda>d. faces d = 20) (dice (terms (md_roll rd))) = Some d"
  shows "fst (renderMultiRoll h st rd) =
     (case groupResults (halflingLucky (options (md_roll rd))) (results d) of
        None \<Rightarrow> Inl TypeError_past_end
      | Some gs \<Rightarrow>
          Inr \<lparr>mo_id = md_id rd, mo_title = md_title rd, mo_formula = formula (md_roll rd),
               entries = map (entryOf h st (md_roll rd)
                               (Some (fromTerms h (drop 1 (terms (md_roll rd)))))) gs,
               mo_tooltips =
                 map (\<lambda>e. getTooltip h (e_roll e))
                   (map (entryOf h st (md_roll rd)
                          (Some (fromTerms h (drop 1 (terms (md_roll rd)))))) gs),
               bonusTooltip =
                 Some (getTooltip h
                   ((fromTerms h (drop 1 (terms (md_roll rd))))
                     \<lparr>terms := drop 1 (writeBack (map setActive (results d))
                                         (terms (md_roll rd)))\<rparr>))\<rparr>)"
proof -
  let ?b = "Some (fromTerms h (drop 1 (terms (md_roll rd))))"
  let ?g = "groupResults (halflingLucky (options (md_roll rd))) (results d)"
  obtain x rs where w: "walk h st (md_roll rd) ?b 0 (results d) [] = (x, rs)"
    by (cases "walk h st (md_roll rd) ?b 0 (results d) []") blast
  have "snd (walk h st (md_roll rd) ?b 0 (results d) []) = map setActive (results d)"
    by (simp only: walk_state take0 drop0 append_Nil)
  then have rs: "rs = map setActive (results d)"
    by (simp only: w snd_conv)
  have "fst (walk h st (md_roll rd) ?b 0 (results d) []) =
      (case ?g of None \<Rightarrow> Inl TypeError_past_end
       | Some gs \<Rightarrow> Inr ([] @ map (entryOf h st (md_roll rd) ?b) gs))"
    by (simp only: walk_groups drop0)
  then have x: "x = (case ?g of None \<Rightarrow> Inl TypeError_past_end
       | Some gs \<Rightarrow> Inr ([] @ map (entryOf h st (md_roll rd) ?b) gs))"
    by (simp only: w fst_conv)
  show ?thesis
    unfolding renderMultiRoll_unfold[OF assms w] rs x
    by (cases ?g) simp_all
qed

lemma renderMultiRoll_no_d20:
  "find (\<lambda>d. faces d = 20) (dice (terms (md_roll rd))) = None \<Longrightarrow>
     fst (renderMultiRoll h st rd) = Inl TypeError_no_d20"
  by (simp add: renderMultiRoll_def Let_def)

lemma renderMultiRoll_Inr:
  assumes "fst (renderMultiRoll h st rd) = Inr out"
  obtains d gs where
    "find (\<lambda>d. faces d = 20) (dice (terms (md_roll rd))) = Some d"
    "groupResults (halflingLucky (options (md_roll rd))) (results d) = Some gs"
    "entries out = map (entryOf h st (md_roll rd)
                         (Some (fromTerms h (drop 1 (terms (md_roll rd)))))) gs"
    "bonusTooltip out \<noteq> None"
proof (cases "find (\<lambda>d. faces d = 20) (dice (terms (md_roll rd)))")
  case None
  with assms show ?thesis by (simp add: renderMultiRoll_no_d20)
next
  case (Some d)
  show ?thesis
  proof (cases "groupResults (halflingLucky (options (md_roll rd))) (results d)")
    case None
    with assms renderMultiRoll_fst[OF Some, of h st] show ?thesis by simp
  next
    case gs: (Some gs)
    with assms renderMultiRoll_fst[OF Some, of h st] have
      "entries out = map (entryOf h st (md_roll rd)
                         (Some (fromTerms h (drop 1 (terms (md_roll rd)))))) gs"
      "bonusTooltip out \<noteq> None"
      by auto
    with Some gs that show ?thesis by blast
  qed
qed

lemma renderMultiRoll_InrD:
  assumes "fst (renderMultiRoll h st rd) = Inr out"
  shows "\<exists>d gs.
    find (\<lambda>d. faces d = 20) (dice (terms (md_roll rd))) = Some d \<and>
    groupResults (halflingLucky (options (md_roll rd))) (results d) = Some gs \<and>
    entries out = map (entryOf h st (md_roll rd)
                         (Some (fromTerms h (drop 1 (terms (md_roll rd)))))) gs \<and>
    bonusTooltip out \<noteq> None"
proof -
  from assms obtain d gs where
    "find (\<lambda>d. faces d = 20) (dice (terms (md_roll rd))) = Some d"
    "groupResults (halflingLucky (options (md_roll rd))) (results d) = Some gs"
    "entries out = map (entryOf h st (md_roll rd)
                         (Some (fromTerms h (drop 1 (terms (md_roll rd)))))) gs"
    "bonusTooltip out \<noteq> None"
    by (rule renderMultiRoll_Inr)
  then show ?thesis by blast
qed

lemma entryOf_total:
  "e_total (entryOf h st roll (Some (fromTerms h bonus)) g) =
     sum_list (map result (filter (\<lambda>r. active r = Some True) (map setActive g))) +
     total' (fromTerms h bonus)"
proof -
  have "isActive = (\<lambda>r. active r = Some True)"
    by (auto simp: isActive_def truthy_def fun_eq_iff split: option.splits)
  then show ?thesis
    by (simp add: entryOf_def mkEntry_def fromTerms_def Let_def evaluateTotal_def dieTotal_def
        nullish_def)
qed

lemma contributing_entryOf [simp]: "contributing (entryOf h st roll b g) = map setActive g"
  by (simp add: entryOf_def)

lemma d20Result_entryOf:
  "d20Result (entryOf h st roll b g) =
     (if D20_ICONS_ENABLED st then Some (result (last g)) else None)"
  by (simp add: entryOf_def mkEntry_def Let_def setActive_def)

lemma active_setActive: "active (setActive r) = Some (\<not> truthy (rerolled r))"
  by (simp add: setActive_def nullish_def)

lemma result_setActive [simp]: "result (setActive r) = result r"
  by (simp add: setActive_def)

lemma Inr_projr: "\<not> isl x \<Longrightarrow> x = Inr (projr x)"
  by simp

subsection \<open>The labels\<close>

lemma emptyLabels_slot:
  "p = 1 \<or> p = 2 \<or> p = 3 \<Longrightarrow> emptyLabels p = Some []"
  by (auto simp: emptyLabels_def)

lemma renderDamageRoll_slots:
  "renderDamageRoll h st rd = Inr (Some out) \<Longrightarrow>
     \<exists>L. damageLabels h st rd = Inr L \<and>
         damagetop out = joined L 1 \<and> damagemid out = joined L 2 \<and> damagebottom out = joined L 3"
  by (auto simp: renderDamageRoll_def split: if_splits sum.splits)

lemma placeTitle_pushed:
  assumes "slotOf (PLACEMENT_DAMAGE_TITLE st) = 1 \<or> slotOf (PLACEMENT_DAMAGE_TITLE st) = 2 \<or>
           slotOf (PLACEMENT_DAMAGE_TITLE st) = 3"
    and "\<not> CONTEXT_REPLACE_TITLE st"
  shows "placeTitle h st rd =
     Inr (emptyLabels(slotOf (PLACEMENT_DAMAGE_TITLE st) \<mapsto>
            [damagePrefix h (damageType rd) (versatile rd)]), True)"
proof -
  have "PLACEMENT_DAMAGE_TITLE st \<noteq> AsNumber 0"
    using assms(1) by (cases "PLACEMENT_DAMAGE_TITLE st") auto
  with assms show ?thesis
    by (simp add: placeTitle_def Let_def push_def emptyLabels_slot)
qed

lemma placeContext_merged:
  assumes "PLACEMENT_DAMAGE_CONTEXT st = PLACEMENT_DAMAGE_TITLE st"
    and "context' rd = Some c" and "c \<noteq> []"
    and "L (slotOf (PLACEMENT_DAMAGE_TITLE st)) = Some [t]"
  shows "placeContext st rd (L, True) =
     Inr (L(slotOf (PLACEMENT_DAMAGE_TITLE st) \<mapsto>
            [if t = [] then ''('' @ c @ '')'' else t @ '' ('' @ c @ '')'']))"
  using assms
  by (simp add: placeContext_def Let_def strictEq_def truthyStr_def mergeContext_def
      mergedLabel_def nullish_def)

lemma placeType_slot:
  assumes "placeType h st rd L = Inr L'"
  shows "L' p = L p \<or>
         (p = slotOf (PLACEMENT_DAMAGE_TYPE st) \<and>
          (\<exists>xs. L p = Some xs \<and> L' p = Some (xs @ [nullish (damageTypes h (damageType rd)) []])))"
  using assms
  by (auto simp: placeType_def Let_def push_def split: if_splits option.splits)


lemma damageLabels_merged:
  assumes "PLACEMENT_DAMAGE_CONTEXT st = PLACEMENT_DAMAGE_TITLE st"
    and "slotOf (PLACEMENT_DAMAGE_TITLE st) = 1 \<or> slotOf (PLACEMENT_DAMAGE_TITLE st) = 2 \<or>
         slotOf (PLACEMENT_DAMAGE_TITLE st) = 3"
    and "context' rd = Some c" and "c \<noteq> []"
    and "\<not> CONTEXT_REPLACE_TITLE st"
  shows "damageLabels h st rd =
     placeType h st rd
       (emptyLabels(slotOf (PLACEMENT_DAMAGE_TITLE st) \<mapsto>
          [if damagePrefix h (damageType rd) (versatile rd) = [] then ''('' @ c @ '')''
           else damagePrefix h (damageType rd) (versatile rd) @ '' ('' @ c @ '')'']))"
proof -
  let ?p = "slotOf (PLACEMENT_DAMAGE_TITLE st)"
  let ?t = "damagePrefix h (damageType rd) (versatile rd)"
  have t: "placeTitle h st rd = Inr (emptyLabels(?p \<mapsto> [?t]), True)"
    using assms(2,5) by (rule placeTitle_pushed)
  have "(emptyLabels(?p \<mapsto> [?t])) ?p = Some [?t]" by simp
  from placeContext_merged[where L = "emptyLabels(?p \<mapsto> [?t])", OF assms(1,3,4) this]
  have c: "placeContext st rd (emptyLabels(?p \<mapsto> [?t]), True) =
      Inr (emptyLabels(?p \<mapsto> [if ?t = [] then ''('' @ c @ '')'' else ?t @ '' ('' @ c @ '')'']))"
    by simp
  show ?thesis
    by (simp add: damageLabels_def t c)
qed

section \<open>The claims of the specification\<close>

text \<open>
  Claim C1. When the roll is rendered, the total of every entry is the sum of the face
  values of the results the entry holds whose \<open>active\<close> flag is true, plus the total
  of the roll of the bonus terms: the same amount for every entry of the call, and 0
  for a roll of no terms. A result whose flag is not true adds nothing. The flag is the
  one the walk has written, the negation of \<open>rerolled\<close>.
\<close>

theorem entry_total_is_active_sum_plus_bonus:
  assumes "fst (renderMultiRoll h st rd) = Inr out" and "e \<in> set (entries out)"
  shows "e_total e =
           sum_list (map result (filter (\<lambda>r. active r = Some True) (contributing e))) +
           total' (fromTerms h (drop 1 (terms (md_roll rd))))
         \<and> total' (fromTerms h []) = 0
         \<and> list_all (\<lambda>r. active r = Some (\<not> truthy (rerolled r))) (contributing e)"
proof -
  from renderMultiRoll_InrD[OF assms(1)] obtain d :: Die and gs where
    es: "entries out = map (entryOf h st (md_roll rd)
                         (Some (fromTerms h (drop 1 (terms (md_roll rd)))))) gs"
    by blast
  from assms(2) es obtain g where
    "e = entryOf h st (md_roll rd) (Some (fromTerms h (drop 1 (terms (md_roll rd))))) g"
    by auto
  then show ?thesis
    by (simp add: entryOf_total list_all_iff active_setActive)
       (simp add: fromTerms_def evaluateTotal_def setActive_def)
qed

text \<open>
  A lucky roll of a rerolled 1 and a 15 with a bonus of 5: one entry, and only the 15
  and the bonus are in its total.
\<close>

theorem entry_total_witness:
  "\<not> isl (fst (renderMultiRoll sampleHost (sampleSettings (AsNumber 1) (AsNumber 2) (AsNumber 3))
       (sampleCheck True [(rolled 1)\<lparr>active := Some False, rerolled := Some True\<rparr>, rolled 15]
          [OtherT 5])))
   \<and> entries (projr (fst (renderMultiRoll sampleHost
        (sampleSettings (AsNumber 1) (AsNumber 2) (AsNumber 3))
        (sampleCheck True [(rolled 1)\<lparr>active := Some False, rerolled := Some True\<rparr>, rolled 15]
          [OtherT 5])))) \<noteq> []
   \<and> e_total (hd (entries (projr (fst (renderMultiRoll sampleHost
        (sampleSettings (AsNumber 1) (AsNumber 2) (AsNumber 3))
        (sampleCheck True [(rolled 1)\<lparr>active := Some False, rerolled := Some True\<rparr>, rolled 15]
          [OtherT 5])))))) = 15 + 5"
proof -
  let ?rd = "sampleCheck True [(rolled 1)\<lparr>active := Some False, rerolled := Some True\<rparr>, rolled 15]
          [OtherT 5]"
  let ?st = "sampleSettings (AsNumber 1) (AsNumber 2) (AsNumber 3)"
  let ?R = "fst (renderMultiRoll sampleHost ?st ?rd)"
  have r: "\<not> isl ?R" by code_simp
  have n: "entries (projr ?R) \<noteq> []" by code_simp
  have "e_total (hd (entries (projr ?R))) =
      sum_list (map result (filter (\<lambda>r. active r = Some True)
        (contributing (hd (entries (projr ?R)))))) +
      total' (fromTerms sampleHost (drop 1 (terms (md_roll ?rd))))"
    using entry_total_is_active_sum_plus_bonus[OF Inr_projr[OF r] hd_in_set[OF n]]
    by (rule conjunct1)
  also have "\<dots> = 15 + 5" by code_simp
  finally show ?thesis using r n by blast
qed

text \<open>
  Claim C2. A placement of 0 is meant to keep its fragment out of every slot, and the
  three steps guard against it. The guards of the type and of the context compare with
  the string \<open>"0"\<close>, the guard of the title with the number \<open>0\<close>. A type or context
  placement held as the number 0 passes its guard, and so does a title placement held
  as the string \<open>"0"\<close>; the push into the slot 0, which \<open>labels\<close> does not have,
  throws. No slot string is returned.
\<close>

theorem placement_zero_throws:
  "renderDamageRoll sampleHost (sampleSettings (AsNumber 1) (AsNumber 0) (AsNumber 3))
     (sampleDamage ''fire'' None (Some sampleRoll) None) = Inl TypeError_no_slot
   \<and> renderDamageRoll sampleHost (sampleSettings (AsNumber 1) (AsNumber 2) (AsNumber 0))
     (sampleDamage ''fire'' (Some ''Sneak Attack'') (Some sampleRoll) None) = Inl TypeError_no_slot
   \<and> renderDamageRoll sampleHost (sampleSettings (AsString 0) (AsString 2) (AsString 3))
     (sampleDamage ''fire'' None (Some sampleRoll) None) = Inl TypeError_no_slot"
  by code_simp

text \<open>
  Claim C3, as the code has it. For the damage type fire, the context
  \<open>Sneak Attack\<close>, the title and the context both placed in slot 1 as numbers and no
  replacement of the title, whenever the labels are returned, whatever the type
  placement, slot 1 reads \<open>Damage (Sneak Attack)\<close>: the context is merged into the
  title fragment. The label of the damage type follows after \<open>" - "\<close> when the type is
  placed in slot 1 as well and the context does not replace it. The labels are returned
  for every type placement 1, 2 or 3. In no case does slot 1 read
  \<open>Damage - Sneak Attack\<close>.
\<close>

theorem fire_sneak_attack_slot1:
  assumes "\<not> truthyStr (healingTypes h ''fire'')"
    and "damageTypes h ''fire'' = Some lab" and "lab \<noteq> []"
    and "localize h (MODULE_SHORT h @ ''.chat.'' @ ROLL_TYPE_DAMAGE h) = ''Damage''"
    and "damageType rd = ''fire''" and "context' rd = Some ''Sneak Attack''"
    and "\<not> versatile rd"
    and "PLACEMENT_DAMAGE_TITLE st = AsNumber 1" and "PLACEMENT_DAMAGE_CONTEXT st = AsNumber 1"
    and "\<not> CONTEXT_REPLACE_TITLE st"
    and "x = (if slotOf (PLACEMENT_DAMAGE_TYPE st) = 1 \<and> \<not> CONTEXT_REPLACE_DAMAGE st
              then ''Damage (Sneak Attack) - '' @ lab else ''Damage (Sneak Attack)'')"
  shows "(\<forall>L. damageLabels h st rd = Inr L \<longrightarrow> joined L 1 = x)
         \<and> (\<forall>out. renderDamageRoll h st rd = Inr (Some out) \<longrightarrow> damagetop out = x)
         \<and> (slotOf (PLACEMENT_DAMAGE_TYPE st) = 1 \<or> slotOf (PLACEMENT_DAMAGE_TYPE st) = 2 \<or>
             slotOf (PLACEMENT_DAMAGE_TYPE st) = 3
             \<longrightarrow> (\<exists>L. damageLabels h st rd = Inr L \<and> joined L 1 = x))
         \<and> x \<noteq> ''Damage - Sneak Attack''"
proof -
  have p: "damagePrefix h (damageType rd) (versatile rd) = ''Damage''"
    using assms(1-5,7) by (simp add: damagePrefix_def truthyStr_def)
  have m: "damageLabels h st rd =
      placeType h st rd (emptyLabels(1 \<mapsto> [''Damage (Sneak Attack)'']))"
    using damageLabels_merged[of st rd "''Sneak Attack''" h] assms(6,8,9,10) p by simp
  have a: "joined L 1 = x" if "damageLabels h st rd = Inr L" for L
    using that unfolding m using assms(2,3,5,6,9,11)
    by (auto simp: placeType_def Let_def push_def nullish_def truthyStr_def looseEq_def
        emptyLabels_def joined_def split: if_splits option.splits)
  have b: "damagetop out = x" if "renderDamageRoll h st rd = Inr (Some out)" for out
    using renderDamageRoll_slots[OF that] a by auto
  have c: "\<exists>L. damageLabels h st rd = Inr L \<and> joined L 1 = x"
    if s: "slotOf (PLACEMENT_DAMAGE_TYPE st) = 1 \<or> slotOf (PLACEMENT_DAMAGE_TYPE st) = 2 \<or>
             slotOf (PLACEMENT_DAMAGE_TYPE st) = 3"
  proof -
    have "\<exists>L. damageLabels h st rd = Inr L"
      unfolding m using s
      by (auto simp: placeType_def Let_def push_def emptyLabels_def)
    with a show ?thesis by auto
  qed
  have d: "x \<noteq> ''Damage - Sneak Attack''"
    using assms(11) by simp
  from a b c d show ?thesis by simp
qed

text \<open>
  The sample vocabulary with the type placed in slot 2.
\<close>

theorem fire_sneak_attack_witness:
  "\<not> isl (damageLabels sampleHost (sampleSettings (AsNumber 1) (AsNumber 2) (AsNumber 1))
          (sampleDamage ''fire'' (Some ''Sneak Attack'') (Some sampleRoll) None))
   \<and> joined (projr (damageLabels sampleHost (sampleSettings (AsNumber 1) (AsNumber 2) (AsNumber 1))
          (sampleDamage ''fire'' (Some ''Sneak Attack'') (Some sampleRoll) None))) 1
       = ''Damage (Sneak Attack)''
   \<and> map_sum id (map_option damagetop)
       (renderDamageRoll sampleHost (sampleSettings (AsNumber 1) (AsNumber 2) (AsNumber 1))
          (sampleDamage ''fire'' (Some ''Sneak Attack'') (Some sampleRoll) None))
       = Inr (Some ''Damage (Sneak Attack)'')"
proof -
  let ?st = "sampleSettings (AsNumber 1) (AsNumber 2) (AsNumber 1)"
  let ?rd = "sampleDamage ''fire'' (Some ''Sneak Attack'') (Some sampleRoll) None"
  have t: "(\<forall>L. damageLabels sampleHost ?st ?rd = Inr L \<longrightarrow> joined L 1 = ''Damage (Sneak Attack)'')
         \<and> (\<forall>out. renderDamageRoll sampleHost ?st ?rd = Inr (Some out) \<longrightarrow>
                damagetop out = ''Damage (Sneak Attack)'')
         \<and> (slotOf (PLACEMENT_DAMAGE_TYPE ?st) = 1 \<or> slotOf (PLACEMENT_DAMAGE_TYPE ?st) = 2 \<or>
             slotOf (PLACEMENT_DAMAGE_TYPE ?st) = 3
             \<longrightarrow> (\<exists>L. damageLabels sampleHost ?st ?rd = Inr L \<and>
                      joined L 1 = ''Damage (Sneak Attack)''))
         \<and> ''Damage (Sneak Attack)'' \<noteq> ''Damage - Sneak Attack''"
    by (rule fire_sneak_attack_slot1[where lab = "''Fire''"])
       (simp_all add: sampleHost_def sampleSettings_def sampleDamage_def truthyStr_def)
  have s: "slotOf (PLACEMENT_DAMAGE_TYPE ?st) = 2" by (simp add: sampleSettings_def)
  from t s obtain L where l: "damageLabels sampleHost ?st ?rd = Inr L"
    and j: "joined L 1 = ''Damage (Sneak Attack)''"
    by auto
  have r: "\<not> isl (renderDamageRoll sampleHost ?st ?rd)" by code_simp
  have n: "projr (renderDamageRoll sampleHost ?st ?rd) \<noteq> None" by code_simp
  then obtain out where "renderDamageRoll sampleHost ?st ?rd = Inr (Some out)"
    using Inr_projr[OF r] by (cases "projr (renderDamageRoll sampleHost ?st ?rd)") auto
  moreover from this t have "damagetop out = ''Damage (Sneak Attack)''" by blast
  ultimately have "map_sum id (map_option damagetop) (renderDamageRoll sampleHost ?st ?rd)
       = Inr (Some ''Damage (Sneak Attack)'')"
    by simp
  with l j show ?thesis by simp
qed

text \<open>
  At that input the data object has \<open>Damage (Sneak Attack)\<close> on top, not two fragments
  joined by \<open>" - "\<close>.
\<close>

theorem title_and_context_merged_counterexample:
  "map_sum id (map_option damagetop)
     (renderDamageRoll sampleHost (sampleSettings (AsNumber 1) (AsNumber 2) (AsNumber 1))
        (sampleDamage ''fire'' (Some ''Sneak Attack'') (Some sampleRoll) None))
     = Inr (Some ''Damage (Sneak Attack)'')
   \<and> map_sum id (map_option damagetop)
     (renderDamageRoll sampleHost (sampleSettings (AsNumber 1) (AsNumber 2) (AsNumber 1))
        (sampleDamage ''fire'' (Some ''Sneak Attack'') (Some sampleRoll) None))
     \<noteq> Inr (Some ''Damage - Sneak Attack'')"
  by code_simp

text \<open>
  Claim C4, as the code has it. When the context placement is the title placement (the
  same value in the same representation), the slot is 1, 2 or 3, the context is a
  non-empty string and the title is not replaced, the title step puts the one fragment
  \<open>t\<close> into the slot and the context step replaces it by one merged fragment:
  \<open>t (context)\<close> when the title \<open>t\<close> is not empty, \<open>(context)\<close> with no space before
  it when the title is empty. The context is no fragment of its own. When the labels are
  returned, the slot holds the merged fragment alone, or followed by the label of the
  damage type.
\<close>

theorem colliding_slot_holds_merged_fragment:
  assumes "PLACEMENT_DAMAGE_CONTEXT st = PLACEMENT_DAMAGE_TITLE st"
    and "slotOf (PLACEMENT_DAMAGE_TITLE st) = 1 \<or> slotOf (PLACEMENT_DAMAGE_TITLE st) = 2 \<or>
         slotOf (PLACEMENT_DAMAGE_TITLE st) = 3"
    and "context' rd = Some c" and "c \<noteq> []"
    and "\<not> CONTEXT_REPLACE_TITLE st"
    and "t = damagePrefix h (damageType rd) (versatile rd)"
    and "m = (if t = [] then ''('' @ c @ '')'' else t @ '' ('' @ c @ '')'')"
  shows "(\<exists>L1 L2. placeTitle h st rd = Inr (L1, True) \<and>
            L1 (slotOf (PLACEMENT_DAMAGE_TITLE st)) = Some [t] \<and>
            placeContext st rd (L1, True) = Inr L2 \<and>
            L2 (slotOf (PLACEMENT_DAMAGE_TITLE st)) = Some [m] \<and>
            damageLabels h st rd = placeType h st rd L2)
         \<and> (\<forall>L. damageLabels h st rd = Inr L \<longrightarrow>
              L (slotOf (PLACEMENT_DAMAGE_TITLE st)) = Some [m] \<or>
              L (slotOf (PLACEMENT_DAMAGE_TITLE st)) =
                Some [m, nullish (damageTypes h (damageType rd)) []])"
proof -
  let ?p = "slotOf (PLACEMENT_DAMAGE_TITLE st)"
  have t: "placeTitle h st rd = Inr (emptyLabels(?p \<mapsto> [t]), True)"
    unfolding assms(6) using assms(2,5) by (rule placeTitle_pushed)
  have s: "(emptyLabels(?p \<mapsto> [t])) ?p = Some [t]" by simp
  from placeContext_merged[where L = "emptyLabels(?p \<mapsto> [t])", OF assms(1,3,4) s]
  have c: "placeContext st rd (emptyLabels(?p \<mapsto> [t]), True) = Inr (emptyLabels(?p \<mapsto> [m]))"
    by (simp add: assms(7))
  have d: "damageLabels h st rd = placeType h st rd (emptyLabels(?p \<mapsto> [m]))"
    by (simp add: damageLabels_def t c)
  have a: "\<exists>L1 L2. placeTitle h st rd = Inr (L1, True) \<and> L1 ?p = Some [t] \<and>
            placeContext st rd (L1, True) = Inr L2 \<and> L2 ?p = Some [m] \<and>
            damageLabels h st rd = placeType h st rd L2"
    using t s c d by (intro exI[of _ "emptyLabels(?p \<mapsto> [t])"] exI[of _ "emptyLabels(?p \<mapsto> [m])"]) simp
  have b: "L ?p = Some [m] \<or> L ?p = Some [m, nullish (damageTypes h (damageType rd)) []]"
    if "damageLabels h st rd = Inr L" for L
    using placeType_slot[of h st rd "emptyLabels(?p \<mapsto> [m])" L ?p] that d by auto
  from a b show ?thesis by blast
qed

text \<open>
  Title, type and context all in slot 2: the merged fragment, then the damage type.
\<close>

theorem colliding_slot_witness:
  "\<not> isl (damageLabels sampleHost (sampleSettings (AsNumber 2) (AsNumber 2) (AsNumber 2))
      (sampleDamage ''fire'' (Some ''Sneak Attack'') (Some sampleRoll) None))
   \<and> projr (damageLabels sampleHost (sampleSettings (AsNumber 2) (AsNumber 2) (AsNumber 2))
      (sampleDamage ''fire'' (Some ''Sneak Attack'') (Some sampleRoll) None)) 2
       = Some [''Damage (Sneak Attack)'', ''Fire'']"
proof -
  let ?st = "sampleSettings (AsNumber 2) (AsNumber 2) (AsNumber 2)"
  let ?rd = "sampleDamage ''fire'' (Some ''Sneak Attack'') (Some sampleRoll) None"
  have e: "PLACEMENT_DAMAGE_CONTEXT ?st = PLACEMENT_DAMAGE_TITLE ?st"
    by (simp add: sampleSettings_def)
  have s: "slotOf (PLACEMENT_DAMAGE_TITLE ?st) = 1 \<or> slotOf (PLACEMENT_DAMAGE_TITLE ?st) = 2 \<or>
         slotOf (PLACEMENT_DAMAGE_TITLE ?st) = 3"
    by (simp add: sampleSettings_def)
  have c: "context' ?rd = Some ''Sneak Attack''" by (simp add: sampleDamage_def)
  have n: "''Sneak Attack'' \<noteq> []" by simp
  have r: "\<not> CONTEXT_REPLACE_TITLE ?st" by (simp add: sampleSettings_def)
  have t: "''Damage'' = damagePrefix sampleHost (damageType ?rd) (versatile ?rd)"
    by code_simp
  have m: "''Damage (Sneak Attack)'' =
      (if ''Damage'' = [] then ''('' @ ''Sneak Attack'' @ '')''
       else ''Damage'' @ '' ('' @ ''Sneak Attack'' @ '')'')"
    by simp
  have i: "\<not> isl (damageLabels sampleHost ?st ?rd)" by code_simp
  have f: "nullish (damageTypes sampleHost (damageType ?rd)) [] = ''Fire''" by code_simp
  have p: "slotOf (PLACEMENT_DAMAGE_TITLE ?st) = 2" by (simp add: sampleSettings_def)
  have l: "length (the (projr (damageLabels sampleHost ?st ?rd) 2)) = 2" by code_simp
  from colliding_slot_holds_merged_fragment[OF e s c n r t m] Inr_projr[OF i]
  have "projr (damageLabels sampleHost ?st ?rd) (slotOf (PLACEMENT_DAMAGE_TITLE ?st))
          = Some [''Damage (Sneak Attack)''] \<or>
        projr (damageLabels sampleHost ?st ?rd) (slotOf (PLACEMENT_DAMAGE_TITLE ?st))
          = Some [''Damage (Sneak Attack)'', nullish (damageTypes sampleHost (damageType ?rd)) []]"
    by blast
  with l have "projr (damageLabels sampleHost ?st ?rd) 2 = Some [''Damage (Sneak Attack)'', ''Fire'']"
    unfolding f p by auto
  with i show ?thesis by simp
qed

text \<open>
  A damage type that no vocabulary knows has the empty title. The merged fragment is
  \<open>(Sneak Attack)\<close>, which is not the empty title followed by a space and the
  parenthesised context.
\<close>

theorem empty_title_merge_counterexample:
  "damagePrefix sampleHost ''mystery'' False = []
   \<and> map_sum id (map_option damagetop)
     (renderDamageRoll sampleHost (sampleSettings (AsNumber 1) (AsNumber 2) (AsNumber 1))
        (sampleDamage ''mystery'' (Some ''Sneak Attack'') (Some sampleRoll) None))
     = Inr (Some ''(Sneak Attack)'')
   \<and> map_sum id (map_option damagetop)
     (renderDamageRoll sampleHost (sampleSettings (AsNumber 1) (AsNumber 2) (AsNumber 1))
        (sampleDamage ''mystery'' (Some ''Sneak Attack'') (Some sampleRoll) None))
     \<noteq> Inr (Some (damagePrefix sampleHost ''mystery'' False @ '' ('' @ ''Sneak Attack'' @ '')''))"
  by code_simp

text \<open>
  Claim C5, as the code has it. The call writes to the caller's roll: in the first die
  group of 20 faces every result gets the negation of its \<open>rerolled\<close> flag as its
  \<open>active\<close> flag, whether the call returns or throws. Nothing else changes: apart
  from the \<open>active\<close> flags the roll is the same before and after, and a roll with
  no such die group is left as it is.
\<close>

theorem only_active_flags_written:
  "snd (renderMultiRoll h st rd) =
     (case find (\<lambda>d. faces d = 20) (dice (terms (md_roll rd))) of
        None \<Rightarrow> md_roll rd
      | Some d \<Rightarrow>
          (md_roll rd)\<lparr>terms := writeBack (map setActive (results d)) (terms (md_roll rd))\<rparr>)
   \<and> withoutActive (snd (renderMultiRoll h st rd)) = withoutActive (md_roll rd)
   \<and> find (\<lambda>d. faces d = 20) (dice (terms (snd (renderMultiRoll h st rd)))) =
       map_option (\<lambda>d. d\<lparr>results := map setActive (results d)\<rparr>)
         (find (\<lambda>d. faces d = 20) (dice (terms (md_roll rd))))"
proof (cases "find (\<lambda>d. faces d = 20) (dice (terms (md_roll rd)))")
  case None
  then show ?thesis by (simp add: renderMultiRoll_snd)
next
  case (Some d)
  then show ?thesis
    by (simp add: renderMultiRoll_snd withoutActive_def clear_writeBack find_writeBack)
qed

text \<open>
  A roll with advantage: the discarded 5 comes in with \<open>active\<close> false and is not
  rerolled, so the call sets its \<open>active\<close> flag, and the caller's roll is not what it
  was.
\<close>

theorem advantage_roll_changed_counterexample:
  "snd (renderMultiRoll sampleHost (sampleSettings (AsNumber 1) (AsNumber 2) (AsNumber 3))
         (sampleCheck False
            [\<lparr>result = 5, active = Some False, discarded = Some True, rerolled = None\<rparr>,
             rolled 17] []))
   \<noteq> md_roll (sampleCheck False
            [\<lparr>result = 5, active = Some False, discarded = Some True, rerolled = None\<rparr>,
             rolled 17] [])"
  by code_simp

text \<open>
  Claim C6, as the code has it. With the icon setting on, \<open>d20Result\<close> of an entry is
  the face value of the last result the entry consumed: the result that started the
  entry when the entry has one result, the companion when the lucky rule consumed one,
  since the index has moved on by then. With the setting off, no face value is recorded.
\<close>

theorem d20Result_is_last_consumed:
  assumes "fst (renderMultiRoll h st rd) = Inr out" and "e \<in> set (entries out)"
  shows "contributing e \<noteq> [] \<and>
         d20Result e =
           (if D20_ICONS_ENABLED st then Some (result (last (contributing e))) else None)"
proof -
  from renderMultiRoll_InrD[OF assms(1)] obtain d :: Die and gs where
    gs: "groupResults (halflingLucky (options (md_roll rd))) (results d) = Some gs" and
    es: "entries out = map (entryOf h st (md_roll rd)
                         (Some (fromTerms h (drop 1 (terms (md_roll rd)))))) gs"
    by blast
  from assms(2) es obtain g where g: "g \<in> set gs" and
    e: "e = entryOf h st (md_roll rd) (Some (fromTerms h (drop 1 (terms (md_roll rd))))) g"
    by auto
  from groupResults_shape[OF gs g] have "g \<noteq> []" by auto
  then show ?thesis
    by (simp add: e d20Result_entryOf last_map)
qed

text \<open>
  A lucky roll of 1, 15 and 9: the first entry records the 15.
\<close>

theorem d20Result_witness:
  "\<not> isl (fst (renderMultiRoll sampleHost (sampleSettings (AsNumber 1) (AsNumber 2) (AsNumber 3))
       (sampleCheck True [rolled 1, rolled 15, rolled 9] [])))
   \<and> entries (projr (fst (renderMultiRoll sampleHost
        (sampleSettings (AsNumber 1) (AsNumber 2) (AsNumber 3))
        (sampleCheck True [rolled 1, rolled 15, rolled 9] [])))) \<noteq> []
   \<and> d20Result (hd (entries (projr (fst (renderMultiRoll sampleHost
        (sampleSettings (AsNumber 1) (AsNumber 2) (AsNumber 3))
        (sampleCheck True [rolled 1, rolled 15, rolled 9] [])))))) = Some 15"
proof -
  let ?rd = "sampleCheck True [rolled 1, rolled 15, rolled 9] []"
  let ?st = "sampleSettings (AsNumber 1) (AsNumber 2) (AsNumber 3)"
  let ?R = "fst (renderMultiRoll sampleHost ?st ?rd)"
  have r: "\<not> isl ?R" by code_simp
  have n: "entries (projr ?R) \<noteq> []" by code_simp
  have "d20Result (hd (entries (projr ?R))) =
      (if D20_ICONS_ENABLED ?st
       then Some (result (last (contributing (hd (entries (projr ?R)))))) else None)"
    using d20Result_is_last_consumed[OF Inr_projr[OF r] hd_in_set[OF n]]
    by (rule conjunct2)
  also have "\<dots> = Some 15" by code_simp
  finally show ?thesis using r n by blast
qed

text \<open>
  The lucky roll of a 1 and a 15 has one entry; it was started by the 1 and records the
  15 of the companion.
\<close>

theorem d20Result_companion_counterexample:
  "\<not> isl (fst (renderMultiRoll sampleHost (sampleSettings (AsNumber 1) (AsNumber 2) (AsNumber 3))
       (sampleCheck True [rolled 1, rolled 15] [])))
   \<and> map (result \<circ> hd \<circ> contributing) (entries (projr (fst (renderMultiRoll sampleHost
        (sampleSettings (AsNumber 1) (AsNumber 2) (AsNumber 3))
        (sampleCheck True [rolled 1, rolled 15] []))))) = [1]
   \<and> map d20Result (entries (projr (fst (renderMultiRoll sampleHost
        (sampleSettings (AsNumber 1) (AsNumber 2) (AsNumber 3))
        (sampleCheck True [rolled 1, rolled 15] []))))) = [Some 15]"
  by code_simp

text \<open>
  Claim C7. The bonus roll is meant to be \<open>null\<close> when there are no bonus terms, but
  the test is on the array \<open>roll.terms.slice(1)\<close>, which is truthy when empty: the
  bonus roll is always built and its tooltip is always requested. For a roll of one
  d20 and no other term the data object carries a bonus tooltip.
\<close>

theorem bonusTooltip_present_without_bonus_terms:
  "drop 1 (terms (md_roll (sampleCheck False [rolled 7] []))) = []
   \<and> \<not> isl (fst (renderMultiRoll sampleHost (sampleSettings (AsNumber 1) (AsNumber 2) (AsNumber 3))
       (sampleCheck False [rolled 7] [])))
   \<and> bonusTooltip (projr (fst (renderMultiRoll sampleHost
        (sampleSettings (AsNumber 1) (AsNumber 2) (AsNumber 3))
        (sampleCheck False [rolled 7] [])))) = Some ''tooltip of terms''"
  by code_simp

text \<open>
  Claim C8, as the code has it. The function returns nothing exactly when both rolls are
  there and both have no terms. Otherwise, when at least one of the two rolls is there
  and the placement of the labels does not throw, it returns the data object, and the
  formula is that of the base roll when there is one and that of the critical roll when
  there is none.
\<close>

theorem damage_output_and_formula:
  "((renderDamageRoll h st rd = Inr None) =
      (\<exists>b c. baseRoll rd = Some b \<and> critRoll rd = Some c \<and> terms b = [] \<and> terms c = []))
   \<and> (\<not> (\<exists>b c. baseRoll rd = Some b \<and> critRoll rd = Some c \<and> terms b = [] \<and> terms c = []) \<and>
        (baseRoll rd \<noteq> None \<or> critRoll rd \<noteq> None) \<and> \<not> isl (damageLabels h st rd)
      \<longrightarrow> (\<exists>out. renderDamageRoll h st rd = Inr (Some out) \<and>
                 do_formula out =
                   (case baseRoll rd of
                      Some b \<Rightarrow> formula b
                    | None \<Rightarrow> (case critRoll rd of Some c \<Rightarrow> formula c | None \<Rightarrow> []))))"
proof -
  have z: "(zeroTerms (baseRoll rd) \<and> zeroTerms (critRoll rd)) =
      (\<exists>b c. baseRoll rd = Some b \<and> critRoll rd = Some c \<and> terms b = [] \<and> terms c = [])"
    by (auto simp: zeroTerms_def split: option.splits)
  have a: "(renderDamageRoll h st rd = Inr None) =
      (zeroTerms (baseRoll rd) \<and> zeroTerms (critRoll rd))"
    by (simp add: renderDamageRoll_def split: sum.splits)
  have b: "\<exists>out. renderDamageRoll h st rd = Inr (Some out) \<and>
                 do_formula out =
                   (case baseRoll rd of
                      Some b \<Rightarrow> formula b
                    | None \<Rightarrow> (case critRoll rd of Some c \<Rightarrow> formula c | None \<Rightarrow> []))"
    if n: "\<not> (zeroTerms (baseRoll rd) \<and> zeroTerms (critRoll rd))"
      and p: "baseRoll rd \<noteq> None \<or> critRoll rd \<noteq> None"
      and l: "\<not> isl (damageLabels h st rd)"
  proof -
    from l obtain L where L: "damageLabels h st rd = Inr L"
      by (cases "damageLabels h st rd") auto
    from p obtain f where f: "formulaOf (baseRoll rd) (critRoll rd) = Inr f"
      and g: "f = (case baseRoll rd of
                      Some b \<Rightarrow> formula b
                    | None \<Rightarrow> (case critRoll rd of Some c \<Rightarrow> formula c | None \<Rightarrow> []))"
      by (auto simp: formulaOf_def split: option.splits)
    from n L f g show ?thesis
      by (simp add: renderDamageRoll_def)
  qed
  from a b show ?thesis unfolding z by blast
qed

text \<open>
  No base roll and a critical roll of \<open>2d6\<close>: the formula of the critical roll.
\<close>

theorem damage_output_witness:
  "\<not> (\<exists>b c. baseRoll (sampleDamage ''fire'' None None (Some sampleRoll)) = Some b \<and>
             critRoll (sampleDamage ''fire'' None None (Some sampleRoll)) = Some c \<and>
             terms b = [] \<and> terms c = [])
   \<and> critRoll (sampleDamage ''fire'' None None (Some sampleRoll)) \<noteq> None
   \<and> \<not> isl (damageLabels sampleHost (sampleSettings (AsNumber 1) (AsNumber 2) (AsNumber 3))
            (sampleDamage ''fire'' None None (Some sampleRoll)))
   \<and> map_sum id (map_option do_formula)
       (renderDamageRoll sampleHost (sampleSettings (AsNumber 1) (AsNumber 2) (AsNumber 3))
          (sampleDamage ''fire'' None None (Some sampleRoll))) = Inr (Some ''2d6'')"
proof -
  let ?st = "sampleSettings (AsNumber 1) (AsNumber 2) (AsNumber 3)"
  let ?rd = "sampleDamage ''fire'' None None (Some sampleRoll)"
  have n: "\<not> (\<exists>b c. baseRoll ?rd = Some b \<and> critRoll ?rd = Some c \<and> terms b = [] \<and> terms c = [])"
    by (simp add: sampleDamage_def)
  have p: "critRoll ?rd \<noteq> None" by (simp add: sampleDamage_def)
  have l: "\<not> isl (damageLabels sampleHost ?st ?rd)" by code_simp
  from damage_output_and_formula[of sampleHost ?st ?rd] n p l
  obtain out where "renderDamageRoll sampleHost ?st ?rd = Inr (Some out)"
    and "do_formula out =
           (case baseRoll ?rd of
              Some b \<Rightarrow> formula b
            | None \<Rightarrow> (case critRoll ?rd of Some c \<Rightarrow> formula c | None \<Rightarrow> []))"
    by blast
  then have "map_sum id (map_option do_formula) (renderDamageRoll sampleHost ?st ?rd)
      = Inr (Some ''2d6'')"
    by (simp add: sampleDamage_def sampleRoll_def)
  with n p l show ?thesis by blast
qed

text \<open>
  With neither roll the function does not return: reading \<open>critRoll.formula\<close> throws.
\<close>

theorem both_rolls_absent_counterexample:
  "\<not> (zeroTerms (baseRoll (sampleDamage ''fire'' None None None)) \<and>
       zeroTerms (critRoll (sampleDamage ''fire'' None None None)))
   \<and> renderDamageRoll sampleHost (sampleSettings (AsNumber 1) (AsNumber 2) (AsNumber 3))
       (sampleDamage ''fire'' None None None) = Inl TypeError_no_critRoll"
  by code_simp

text \<open>
  Claim C9, as the code has it. With the lucky rule on and a die group of 20 faces, the
  call throws (a \<open>TypeError\<close> on the result read past the end) exactly when the cursor
  walk comes to the last result as the start of an entry and it shows 1; it throws for
  no other reason. This is so when the last result shows 1 and is the only one, or the
  one before it does not show 1. A last result that shows 1 and is the companion of
  the one before it does not make the call throw.
\<close>

theorem fails_when_last_one_has_no_companion:
  assumes "halflingLucky (options (md_roll rd))"
    and "find (\<lambda>d. faces d = 20) (dice (terms (md_roll rd))) = Some d"
  shows "(fst (renderMultiRoll h st rd) = Inl TypeError_past_end) =
           (groupResults True (results d) = None)
         \<and> (isl (fst (renderMultiRoll h st rd)) = (groupResults True (results d) = None))
         \<and> (result (last (results d)) = 1 \<and>
              (length (results d) = 1 \<or>
               2 \<le> length (results d) \<and> result (results d ! (length (results d) - 2)) \<noteq> 1)
            \<longrightarrow> fst (renderMultiRoll h st rd) = Inl TypeError_past_end)"
proof -
  have eq: "fst (renderMultiRoll h st rd) =
     (case groupResults True (results d) of
        None \<Rightarrow> Inl TypeError_past_end
      | Some gs \<Rightarrow>
          Inr \<lparr>mo_id = md_id rd, mo_title = md_title rd, mo_formula = formula (md_roll rd),
               entries = map (entryOf h st (md_roll rd)
                               (Some (fromTerms h (drop 1 (terms (md_roll rd)))))) gs,
               mo_tooltips =
                 map (\<lambda>e. getTooltip h (e_roll e))
                   (map (entryOf h st (md_roll rd)
                          (Some (fromTerms h (drop 1 (terms (md_roll rd)))))) gs),
               bonusTooltip =
                 Some (getTooltip h
                   ((fromTerms h (drop 1 (terms (md_roll rd))))
                     \<lparr>terms := drop 1 (writeBack (map setActive (results d))
                                         (terms (md_roll rd)))\<rparr>))\<rparr>)"
    using renderMultiRoll_fst[OF assms(2), of h st] assms(1) by simp
  have a: "(fst (renderMultiRoll h st rd) = Inl TypeError_past_end) =
           (groupResults True (results d) = None)"
    unfolding eq by (simp split: option.splits)
  have b: "isl (fst (renderMultiRoll h st rd)) = (groupResults True (results d) = None)"
    unfolding eq by (simp split: option.splits)
  have c: "groupResults True (results d) = None"
    if l: "result (last (results d)) = 1"
      and s: "length (results d) = 1 \<or>
         2 \<le> length (results d) \<and> result (results d ! (length (results d) - 2)) \<noteq> 1"
  proof -
    from s show ?thesis
    proof
      assume "length (results d) = 1"
      then obtain r where "results d = [r]"
        by (cases "results d") auto
      with l show ?thesis by simp
    next
      assume t: "2 \<le> length (results d) \<and> result (results d ! (length (results d) - 2)) \<noteq> 1"
      define n where "n = length (results d) - 2"
      have len: "length (results d) = n + 2" using t unfolding n_def by arith
      have "results d = take n (results d) @ drop n (results d)" by simp
      moreover have "drop n (results d) = [results d ! n, results d ! Suc n]"
        using len by (simp add: Cons_nth_drop_Suc[symmetric])
      moreover have "results d ! Suc n = last (results d)"
      proof -
        have "results d \<noteq> []" using len by auto
        then show ?thesis by (simp add: last_conv_nth len)
      qed
      ultimately have "results d = take n (results d) @ [results d ! n, last (results d)]"
        by simp
      moreover have "result (results d ! n) \<noteq> 1" using t by (simp add: n_def)
      ultimately show ?thesis
        using groupResults_last_one[OF _ l, of "results d ! n" "take n (results d)"] by simp
    qed
  qed
  from a b c show ?thesis by simp
qed

text \<open>
  A 7 and then a 1: the 1 starts an entry and has no companion.
\<close>

theorem fails_when_last_one_witness:
  "halflingLucky (options (md_roll (sampleCheck True [rolled 7, rolled 1] [])))
   \<and> find (\<lambda>d. faces d = 20) (dice (terms (md_roll (sampleCheck True [rolled 7, rolled 1] []))))
       = Some \<lparr>number = 1, faces = 20, results = [rolled 7, rolled 1]\<rparr>
   \<and> groupResults True [rolled 7, rolled 1] = None
   \<and> fst (renderMultiRoll sampleHost (sampleSettings (AsNumber 1) (AsNumber 2) (AsNumber 3))
       (sampleCheck True [rolled 7, rolled 1] [])) = Inl TypeError_past_end"
proof -
  let ?rd = "sampleCheck True [rolled 7, rolled 1] []"
  let ?st = "sampleSettings (AsNumber 1) (AsNumber 2) (AsNumber 3)"
  have l: "halflingLucky (options (md_roll ?rd))" by code_simp
  have f: "find (\<lambda>d. faces d = 20) (dice (terms (md_roll ?rd)))
       = Some \<lparr>number = 1, faces = 20, results = [rolled 7, rolled 1]\<rparr>"
    by (simp add: sampleCheck_def)
  have g: "groupResults True [rolled 7, rolled 1] = None"
    by (simp add: rolled_def)
  from fails_when_last_one_has_no_companion[OF l f, of sampleHost ?st] g
  have "fst (renderMultiRoll sampleHost ?st ?rd) = Inl TypeError_past_end" by simp
  with l f g show ?thesis by blast
qed

text \<open>
  Two results that both show 1: the second is the companion of the first, and the call
  returns one entry.
\<close>

theorem last_one_as_companion_counterexample:
  "halflingLucky (options (md_roll (sampleCheck True [rolled 1, rolled 1] [])))
   \<and> result (last [rolled 1, rolled 1]) = 1
   \<and> \<not> isl (fst (renderMultiRoll sampleHost (sampleSettings (AsNumber 1) (AsNumber 2) (AsNumber 3))
       (sampleCheck True [rolled 1, rolled 1] [])))
   \<and> length (entries (projr (fst (renderMultiRoll sampleHost
        (sampleSettings (AsNumber 1) (AsNumber 2) (AsNumber 3))
        (sampleCheck True [rolled 1, rolled 1] []))))) = 1"
  by code_simp

text \<open>
  Claim C10. When the call returns, every entry holds one result or two; it holds two
  exactly when the lucky rule is on and its first result shows 1, whatever the second
  shows. The entries hold the results of the die group in their order, each result in
  one entry: a companion never starts an entry of its own and never draws a third
  result.
\<close>

theorem entries_hold_one_or_two_results:
  assumes "fst (renderMultiRoll h st rd) = Inr out"
    and "find (\<lambda>d. faces d = 20) (dice (terms (md_roll rd))) = Some d"
  shows "(\<forall>e \<in> set (entries out).
            (length (contributing e) = 1 \<or> length (contributing e) = 2) \<and>
            (length (contributing e) = 2) =
              (halflingLucky (options (md_roll rd)) \<and> result (hd (contributing e)) = 1))
         \<and> concat (map contributing (entries out)) = map setActive (results d)"
proof -
  from renderMultiRoll_InrD[OF assms(1)] obtain d' :: Die and gs where
    d': "find (\<lambda>d. faces d = 20) (dice (terms (md_roll rd))) = Some d'" and
    gs': "groupResults (halflingLucky (options (md_roll rd))) (results d') = Some gs" and
    es: "entries out = map (entryOf h st (md_roll rd)
                         (Some (fromTerms h (drop 1 (terms (md_roll rd)))))) gs"
    by blast
  from d' assms(2) have "d' = d" by simp
  with gs' have gs: "groupResults (halflingLucky (options (md_roll rd))) (results d) = Some gs"
    by simp
  have "concat (map contributing (entries out)) = map setActive (concat gs)"
    by (simp add: es comp_def map_concat)
  then have c: "concat (map contributing (entries out)) = map setActive (results d)"
    by (simp add: groupResults_concat[OF gs])
  have "(length (contributing e) = 1 \<or> length (contributing e) = 2) \<and>
        (length (contributing e) = 2) =
          (halflingLucky (options (md_roll rd)) \<and> result (hd (contributing e)) = 1)"
    if "e \<in> set (entries out)" for e
  proof -
    from that es obtain g where g: "g \<in> set gs" and
      e: "e = entryOf h st (md_roll rd) (Some (fromTerms h (drop 1 (terms (md_roll rd))))) g"
      by auto
    from groupResults_shape[OF gs g] show ?thesis
      by (auto simp: e)
  qed
  with c show ?thesis by blast
qed

text \<open>
  Four results that show 1, 1, 1 and 5 under the lucky rule: two entries of two
  results; the second 1 is a companion and draws nothing, the third 1 starts an entry.
\<close>

theorem entries_one_or_two_witness:
  "\<not> isl (fst (renderMultiRoll sampleHost (sampleSettings (AsNumber 1) (AsNumber 2) (AsNumber 3))
       (sampleCheck True [rolled 1, rolled 1, rolled 1, rolled 5] [])))
   \<and> map (map result \<circ> contributing) (entries (projr (fst (renderMultiRoll sampleHost
        (sampleSettings (AsNumber 1) (AsNumber 2) (AsNumber 3))
        (sampleCheck True [rolled 1, rolled 1, rolled 1, rolled 5] []))))) = [[1, 1], [1, 5]]
   \<and> concat (map contributing (entries (projr (fst (renderMultiRoll sampleHost
        (sampleSettings (AsNumber 1) (AsNumber 2) (AsNumber 3))
        (sampleCheck True [rolled 1, rolled 1, rolled 1, rolled 5] []))))))
       = map setActive [rolled 1, rolled 1, rolled 1, rolled 5]"
proof -
  let ?rd = "sampleCheck True [rolled 1, rolled 1, rolled 1, rolled 5] []"
  let ?st = "sampleSettings (AsNumber 1) (AsNumber 2) (AsNumber 3)"
  let ?R = "fst (renderMultiRoll sampleHost ?st ?rd)"
  have r: "\<not> isl ?R" by code_simp
  have f: "find (\<lambda>d. faces d = 20) (dice (terms (md_roll ?rd)))
       = Some \<lparr>number = 1, faces = 20, results = [rolled 1, rolled 1, rolled 1, rolled 5]\<rparr>"
    by (simp add: sampleCheck_def)
  have m: "map (map result \<circ> contributing) (entries (projr ?R)) = [[1, 1], [1, 5]]"
    by code_simp
  from entries_hold_one_or_two_results[OF Inr_projr[OF r] f]
  have "concat (map contributing (entries (projr ?R)))
       = map setActive [rolled 1, rolled 1, rolled 1, rolled 5]"
    by simp
  with r m show ?thesis by blast
qed

end
